theory Spec2Isabelle
  imports Main "HOL-Library.AList"
begin

section \<open>Values of the host language\<close>

text \<open>
  The engine of \<^verbatim>\<open>lib/persistence.db.js\<close> works on JavaScript values. The model keeps
  the primitives the code distinguishes and references to heap objects. Numbers are
  restricted to integers. A reference whose address is bound in the store is an entity
  instance; a reference whose address is not bound stands for any other object, which
  has none of the members of an instance (in particular no \<^verbatim>\<open>_id\<close>).
\<close>

type_synonym addr = nat

datatype jsval = Undefined | Null | JBool bool | JNum int | JStr string | JRef addr

text \<open>What the code throws: the \<^verbatim>\<open>TypeError\<close> of the runtime (a member read on
  \<^verbatim>\<open>null\<close> or \<^verbatim>\<open>undefined\<close>, a call of a non-function), and the string thrown by the
  getter of a relation that was not fetched (the relation and the stored foreign key).\<close>

datatype error = TypeError | NotFetched string jsval

fun truthy :: "jsval \<Rightarrow> bool" where
  "truthy Undefined = False"
| "truthy Null = False"
| "truthy (JBool b) = b"
| "truthy (JNum n) = (n \<noteq> 0)"
| "truthy (JStr s) = (s \<noteq> [])"
| "truthy (JRef a) = True"

fun show_nat :: "nat \<Rightarrow> string" where
  "show_nat n =
     (if n < 10 then [''0123456789'' ! n]
      else show_nat (n div 10) @ [''0123456789'' ! (n mod 10)])"

declare show_nat.simps [simp del]

text \<open>String conversion, as used for property keys and string concatenation.\<close>

fun ToString :: "jsval \<Rightarrow> string" where
  "ToString Undefined = ''undefined''"
| "ToString Null = ''null''"
| "ToString (JBool b) = (if b then ''true'' else ''false'')"
| "ToString (JNum n) = (if n < 0 then ''-'' @ show_nat (nat (- n)) else show_nat (nat n))"
| "ToString (JStr s) = s"
| "ToString (JRef a) = ''[object Object]''"

text \<open>\<^verbatim>\<open>xs.join(sep)\<close> on an array of strings.\<close>

fun join :: "string \<Rightarrow> string list \<Rightarrow> string" where
  "join sep [] = []"
| "join sep [x] = x"
| "join sep (x # y # ys) = x @ sep @ join sep (y # ys)"

text \<open>\<^verbatim>\<open>o[k] = true\<close> on an object used as a set of names: a new key goes last in the
  enumeration order, a key already present keeps its place.\<close>

definition add_key :: "string \<Rightarrow> string list \<Rightarrow> string list" where
  "add_key k ks = (if k \<in> set ks then ks else ks @ [k])"


section \<open>Entity instances\<close>

text \<open>
  The object \<^verbatim>\<open>that\<close> built by an entity constructor: its data members \<^verbatim>\<open>_id\<close>,
  \<^verbatim>\<open>_new\<close>, \<^verbatim>\<open>_type\<close> and \<^verbatim>\<open>_dirtyProperties\<close> (the names in enumeration order), the two
  closure variables \<^verbatim>\<open>data\<close> and \<^verbatim>\<open>data_obj\<close>, the names for which a field accessor and
  a relation accessor were installed at construction, and every other property written
  to the object. Field and relation names are taken to differ from the members
  \<^verbatim>\<open>_id\<close>, \<^verbatim>\<open>_new\<close>, \<^verbatim>\<open>_type\<close>, \<^verbatim>\<open>_dirtyProperties\<close> and \<^verbatim>\<open>remove\<close>; writes to the last
  two by name are not interpreted.
\<close>

record entity_instance =
  o_id :: jsval
  o_new :: jsval
  o_type :: jsval
  dirtyProperties :: "string list"
  data :: "string \<rightharpoonup> jsval"
  data_obj :: "string \<rightharpoonup> addr"
  field_acc :: "string list"
  hasOne_acc :: "string list"
  other :: "string \<rightharpoonup> jsval"

type_synonym heap = "addr \<rightharpoonup> entity_instance"

text \<open>The member read \<^verbatim>\<open>val._id\<close>: it throws on \<^verbatim>\<open>null\<close> and \<^verbatim>\<open>undefined\<close>, a
  primitive has no such member.\<close>

fun member_id :: "heap \<Rightarrow> jsval \<Rightarrow> error + jsval" where
  "member_id h Undefined = Inl TypeError"
| "member_id h Null = Inl TypeError"
| "member_id h (JRef a) = Inr (case h a of Some obj \<Rightarrow> o_id obj | None \<Rightarrow> Undefined)"
| "member_id h v = Inr Undefined"

text \<open>The setter installed for a declared field.\<close>

definition field_setter :: "entity_instance \<Rightarrow> string \<Rightarrow> jsval \<Rightarrow> entity_instance" where
  "field_setter that f val =
     that\<lparr>data := (data that)(f \<mapsto> val),
          dirtyProperties := add_key f (dirtyProperties that)\<rparr>"

definition field_getter :: "entity_instance \<Rightarrow> string \<Rightarrow> jsval" where
  "field_getter that f = (case data that f of Some v \<Rightarrow> v | None \<Rightarrow> Undefined)"

text \<open>The setter installed for a hasOne relation: \<^verbatim>\<open>val == null\<close> holds of \<^verbatim>\<open>null\<close> and
  \<^verbatim>\<open>undefined\<close>; a value with a truthy \<^verbatim>\<open>_id\<close> is an instance, whose id is stored and
  which is cached in \<^verbatim>\<open>data_obj\<close>; anything else is stored as the foreign key.\<close>

definition hasOne_setter :: "heap \<Rightarrow> entity_instance \<Rightarrow> string \<Rightarrow> jsval \<Rightarrow> entity_instance" where
  "hasOne_setter h that ref val =
     (let that' =
        (if val = Null \<or> val = Undefined then that\<lparr>data := (data that)(ref \<mapsto> Null)\<rparr>
         else (case (val, member_id h val) of
                 (JRef t, Inr i) \<Rightarrow>
                   if truthy i
                   then that\<lparr>data := (data that)(ref \<mapsto> i),
                             data_obj := (data_obj that)(ref \<mapsto> t)\<rparr>
                   else that\<lparr>data := (data that)(ref \<mapsto> val)\<rparr>
               | _ \<Rightarrow> that\<lparr>data := (data that)(ref \<mapsto> val)\<rparr>))
      in that'\<lparr>dirtyProperties := add_key ref (dirtyProperties that')\<rparr>)"

text \<open>The getter of a hasOne relation returns the cached target or throws.\<close>

definition hasOne_getter :: "entity_instance \<Rightarrow> string \<Rightarrow> error + jsval" where
  "hasOne_getter that ref =
     (case data_obj that ref of
        Some t \<Rightarrow> Inr (JRef t)
      | None \<Rightarrow> Inl (NotFetched ref (case data that ref of Some v \<Rightarrow> v | None \<Rightarrow> Undefined)))"

text \<open>A property write \<^verbatim>\<open>that[p] = val\<close> and a property read \<^verbatim>\<open>that[p]\<close>. The relation
  accessors are installed after the field accessors and replace them on a shared name.\<close>

definition set_prop :: "heap \<Rightarrow> entity_instance \<Rightarrow> string \<Rightarrow> jsval \<Rightarrow> entity_instance" where
  "set_prop h that p val =
     (if p \<in> set (hasOne_acc that) then hasOne_setter h that p val
      else if p \<in> set (field_acc that) then field_setter that p val
      else if p = ''_id'' then that\<lparr>o_id := val\<rparr>
      else if p = ''_new'' then that\<lparr>o_new := val\<rparr>
      else if p = ''_type'' then that\<lparr>o_type := val\<rparr>
      else that\<lparr>other := (other that)(p \<mapsto> val)\<rparr>)"

definition get_prop :: "entity_instance \<Rightarrow> string \<Rightarrow> error + jsval" where
  "get_prop that p =
     (if p \<in> set (hasOne_acc that) then hasOne_getter that p
      else if p \<in> set (field_acc that) then Inr (field_getter that p)
      else if p = ''_id'' then Inr (o_id that)
      else if p = ''_new'' then Inr (o_new that)
      else if p = ''_type'' then Inr (o_type that)
      else Inr (case other that p of Some v \<Rightarrow> v | None \<Rightarrow> Undefined))"


section \<open>Value conversion\<close>

text \<open>The type argument is a storage-type tag or \<^verbatim>\<open>undefined\<close> (\<open>None\<close>): the tag of a
  column that is no declared field, or an argument the caller left out.\<close>

definition dbValToEntityVal :: "jsval \<Rightarrow> string option \<Rightarrow> jsval" where
  "dbValToEntityVal val type =
     (if type = Some ''BOOL'' then JBool (val = JNum 1) else val)"

definition entityValToDbVal :: "heap \<Rightarrow> jsval \<Rightarrow> string option \<Rightarrow> error + jsval" where
  "entityValToDbVal h val type =
     (if val = Undefined then Inr Null
      else (case member_id h val of
              Inl e \<Rightarrow> Inl e
            | Inr i \<Rightarrow>
                if truthy i then Inr i
                else if type = Some ''BOOL'' then Inr (JNum (if truthy val then 1 else 0))
                else Inr val))"



section \<open>Metadata registry and session state\<close>

text \<open>
  The metadata of an entity. Objects used as dictionaries are association lists in
  enumeration order (the order of first insertion; names are taken not to be array
  indices nor members of \<^verbatim>\<open>Object.prototype\<close>). A relation names its target entity: the
  source stores the target's constructor, of which there is one per entity name.
\<close>

record meta =
  m_name :: string
  m_fields :: "(string \<times> string) list"
  m_hasMany :: "(string \<times> string) list"
  m_hasOne :: "(string \<times> string) list"

text \<open>
  The state of the module: the closure variables \<^verbatim>\<open>entityMeta\<close> and \<^verbatim>\<open>trackedObjects\<close>,
  the public property \<^verbatim>\<open>persistence.trackedObjects\<close> (\<open>None\<close> while it is the very object
  of the closure variable, as line 8 leaves it, otherwise an object of its own), the
  constructor cache \<^verbatim>\<open>persistence._entityClassCache\<close> (for each cached constructor,
  whether the \<^verbatim>\<open>meta\<close> its closure captured was defined), the heap of instances with
  the next free address, and the number of transactions the connection has started.
\<close>

record state =
  entityMeta :: "(string \<times> meta) list"
  trackedObjects :: "(string \<times> addr) list"
  persistence_trackedObjects :: "(string \<times> addr) list option"
  entityClassCache :: "(string \<times> bool) list"
  store :: heap
  heap_next :: addr
  conn_txs :: nat

definition init_state :: state where
  "init_state =
     \<lparr>entityMeta = [], trackedObjects = [], persistence_trackedObjects = None,
      entityClassCache = [], store = Map.empty, heap_next = 0, conn_txs = 0\<rparr>"

definition getMeta :: "state \<Rightarrow> string \<Rightarrow> meta option" where
  "getMeta st entityName = map_of (entityMeta st) entityName"

text \<open>\<^verbatim>\<open>getEntity\<close> returns the cached constructor or builds and caches one; the
  constructor is identified by the entity name.\<close>

definition getEntity :: "state \<Rightarrow> string \<Rightarrow> state" where
  "getEntity st entityName =
     (if map_of (entityClassCache st) entityName \<noteq> None then st
      else st\<lparr>entityClassCache :=
                 entityClassCache st @ [(entityName, map_of (entityMeta st) entityName \<noteq> None)]\<rparr>)"

definition persistence_define :: "state \<Rightarrow> string \<Rightarrow> (string \<times> string) list \<Rightarrow> state" where
  "persistence_define st entityName flds =
     (if map_of (entityMeta st) entityName \<noteq> None then getEntity st entityName
      else getEntity
             (st\<lparr>entityMeta := entityMeta st @
                    [(entityName, \<lparr>m_name = entityName, m_fields = flds, m_hasMany = [], m_hasOne = []\<rparr>)]\<rparr>)
             entityName)"

text \<open>The variable \<^verbatim>\<open>meta\<close> in the closure of a cached constructor.\<close>

definition closure_meta :: "state \<Rightarrow> string \<Rightarrow> meta option" where
  "closure_meta st entityName =
     (case map_of (entityClassCache st) entityName of
        Some True \<Rightarrow> map_of (entityMeta st) entityName
      | _ \<Rightarrow> None)"

text \<open>\<^verbatim>\<open>entity.hasMany(collName, otherEntity, invCollName)\<close> on the constructor of
  \<open>entityName\<close>. The two assignments run in order, so the first one stays when the
  second one throws.\<close>

definition hasMany_decl ::
  "state \<Rightarrow> string \<Rightarrow> string \<Rightarrow> string \<Rightarrow> string \<Rightarrow> state \<times> error option" where
  "hasMany_decl st entityName collName otherEntity invCollName =
     (case closure_meta st entityName of
        None \<Rightarrow> (st, Some TypeError)
      | Some m \<Rightarrow>
          (let st1 = st\<lparr>entityMeta := AList.update entityName
                          (m\<lparr>m_hasMany := AList.update collName otherEntity (m_hasMany m)\<rparr>)
                          (entityMeta st)\<rparr>
           in case closure_meta st1 otherEntity of
                None \<Rightarrow> (st1, Some TypeError)
              | Some otherMeta \<Rightarrow>
                  (st1\<lparr>entityMeta := AList.update otherEntity
                          (otherMeta\<lparr>m_hasOne := AList.update invCollName entityName (m_hasOne otherMeta)\<rparr>)
                          (entityMeta st1)\<rparr>, None)))"


section \<open>Entity factory\<close>

text \<open>The loop \<^verbatim>\<open>for (var f in obj) that[f] = obj[f]\<close> over the initializer.\<close>

fun assign_all :: "heap \<Rightarrow> entity_instance \<Rightarrow> (string \<times> jsval) list \<Rightarrow> entity_instance" where
  "assign_all h that [] = that"
| "assign_all h that ((f, v) # obj) = assign_all h (set_prop h that f v) obj"

text \<open>The object built by the constructor of \<open>entityName\<close> from the metadata \<open>m\<close>, the
  identifier \<open>uuid\<close> returned by the external \<^verbatim>\<open>createUUID\<close>, and the initializer.\<close>

definition entity_body ::
  "heap \<Rightarrow> string \<Rightarrow> meta \<Rightarrow> string \<Rightarrow> (string \<times> jsval) list \<Rightarrow> entity_instance" where
  "entity_body h entityName m uuid obj =
     assign_all h
       \<lparr>o_id = JStr uuid, o_new = JBool True, o_type = JStr entityName,
        dirtyProperties = [], data = Map.empty, data_obj = Map.empty,
        field_acc = map fst (m_fields m), hasOne_acc = map fst (m_hasOne m),
        other = Map.empty\<rparr>
       obj"

definition alloc :: "state \<Rightarrow> entity_instance \<Rightarrow> state \<times> addr" where
  "alloc st that =
     (st\<lparr>store := (store st)(heap_next st \<mapsto> that), heap_next := Suc (heap_next st)\<rparr>,
      heap_next st)"

text \<open>\<^verbatim>\<open>new entity(obj)\<close> for a cached constructor: it throws on \<^verbatim>\<open>meta.fields\<close> when the
  closure's \<^verbatim>\<open>meta\<close> is undefined.\<close>

definition entity ::
  "state \<Rightarrow> string \<Rightarrow> string \<Rightarrow> (string \<times> jsval) list \<Rightarrow> error + (state \<times> addr)" where
  "entity st entityName uuid obj =
     (case closure_meta st entityName of
        None \<Rightarrow> Inl TypeError
      | Some m \<Rightarrow> Inr (alloc st (entity_body (store st) entityName m uuid obj)))"

text \<open>The statements \<^verbatim>\<open>o[p] = val\<close> and \<^verbatim>\<open>o[p]\<close> of a caller, on the instance at an
  address.\<close>

definition write_prop :: "state \<Rightarrow> addr \<Rightarrow> string \<Rightarrow> jsval \<Rightarrow> state" where
  "write_prop st a p val =
     (case store st a of
        None \<Rightarrow> st
      | Some that \<Rightarrow> st\<lparr>store := (store st)(a \<mapsto> set_prop (store st) that p val)\<rparr>)"

definition read_prop :: "state \<Rightarrow> addr \<Rightarrow> string \<Rightarrow> error + jsval" where
  "read_prop st a p =
     (case store st a of None \<Rightarrow> Inr Undefined | Some that \<Rightarrow> get_prop that p)"


section \<open>Identity cache\<close>

text \<open>
  \<^verbatim>\<open>trackedObjects\<close> maps the string form of an id to the tracked object; the lookups
  \<^verbatim>\<open>trackedObjects[k]\<close> of \<^verbatim>\<open>add\<close> and \<^verbatim>\<open>rowToEntity\<close> are modelled on its own keys.
  In the source the lookup also finds the members that the object inherits from
  \<^verbatim>\<open>Object.prototype\<close>, so the model covers ids whose string form is not the name of
  such a member (\<open>object_prototype_members\<close>); statements that depend on a lookup
  missing carry that condition.
\<close>

definition object_prototype_members :: "string list" where
  "object_prototype_members =
     [''constructor'', ''hasOwnProperty'', ''isPrototypeOf'', ''propertyIsEnumerable'',
      ''toLocaleString'', ''toString'', ''valueOf'', ''__defineGetter__'',
      ''__defineSetter__'', ''__lookupGetter__'', ''__lookupSetter__'', ''__proto__'']"

definition add :: "state \<Rightarrow> addr \<Rightarrow> state" where
  "add st obj =
     (let k = ToString (case store st obj of Some that \<Rightarrow> o_id that | None \<Rightarrow> Undefined)
      in if map_of (trackedObjects st) k \<noteq> None then st
         else st\<lparr>trackedObjects := trackedObjects st @ [(k, obj)]\<rparr>)"

text \<open>\<^verbatim>\<open>persistence.clean\<close> assigns a new empty object to the public property.\<close>

definition clean :: "state \<Rightarrow> state" where
  "clean st = st\<lparr>persistence_trackedObjects := Some []\<rparr>"

definition row_get :: "(string \<times> jsval) list \<Rightarrow> string \<Rightarrow> jsval" where
  "row_get row k = (case map_of row k of Some v \<Rightarrow> v | None \<Rightarrow> Undefined)"

text \<open>The loop of \<^verbatim>\<open>rowToEntity\<close> over the columns of the row.\<close>

fun fill_from_row ::
  "heap \<Rightarrow> meta \<Rightarrow> string \<Rightarrow> entity_instance \<Rightarrow> (string \<times> jsval) list \<Rightarrow> entity_instance" where
  "fill_from_row h rowMeta prefix obj [] = obj"
| "fill_from_row h rowMeta prefix obj ((p, v) # row) =
     (if take (length prefix) p = prefix
      then (let prop = drop (length prefix) p
            in if prop \<noteq> ''id''
               then fill_from_row h rowMeta prefix
                      (set_prop h obj prop (dbValToEntityVal v (map_of (m_fields rowMeta) prop))) row
               else fill_from_row h rowMeta prefix obj row)
      else fill_from_row h rowMeta prefix obj row)"

text \<open>\<^verbatim>\<open>rowToEntity(entityName, row, prefix)\<close>, with the identifier the constructor draws
  when one is built. The new object is put on the heap once it is filled; nothing
  reads the heap in between.\<close>

definition rowToEntity ::
  "state \<Rightarrow> string \<Rightarrow> (string \<times> jsval) list \<Rightarrow> string \<Rightarrow> string \<Rightarrow> state \<times> (error + addr)" where
  "rowToEntity st entityName row prefix uuid =
     (case map_of (trackedObjects st) (ToString (row_get row (prefix @ ''id''))) of
        Some cached \<Rightarrow> (st, Inr cached)
      | None \<Rightarrow>
          (let st1 = getEntity st entityName
           in case closure_meta st1 entityName of
                None \<Rightarrow> (st1, Inl TypeError)
              | Some rowMeta \<Rightarrow>
                  (let o0 = entity_body (store st1) entityName rowMeta uuid [];
                       o1 = o0\<lparr>o_id := row_get row (prefix @ ''id''), o_new := JBool False\<rparr>;
                       o2 = fill_from_row (store st1) rowMeta prefix o1 row
                   in case alloc st1 o2 of (st2, a) \<Rightarrow> (st2, Inr a))))"


section \<open>Persistence engine\<close>

text \<open>A statement handed to \<^verbatim>\<open>tx.executeSql\<close>: the text and the bound parameters
  (\<open>None\<close> for \<^verbatim>\<open>null\<close>).\<close>

datatype statement = Statement (sql: string) (params: "jsval list option")

text \<open>The loop of \<^verbatim>\<open>save\<close> over the dirty names, with its four arrays \<^verbatim>\<open>properties\<close>,
  \<^verbatim>\<open>values\<close>, \<^verbatim>\<open>qs\<close> and \<^verbatim>\<open>propertyPairs\<close>. The value is read through the accessor and
  converted by \<^verbatim>\<open>entityValToDbVal\<close> called with one argument.\<close>

fun collect_dirty ::
  "heap \<Rightarrow> entity_instance \<Rightarrow> string list
     \<Rightarrow> string list \<times> jsval list \<times> string list \<times> string list
     \<Rightarrow> error + (string list \<times> jsval list \<times> string list \<times> string list)" where
  "collect_dirty h obj [] acc = Inr acc"
| "collect_dirty h obj (p # ps) (properties, vals, qs, propertyPairs) =
     (case get_prop obj p of
        Inl e \<Rightarrow> Inl e
      | Inr v \<Rightarrow>
          (case entityValToDbVal h v None of
             Inl e \<Rightarrow> Inl e
           | Inr w \<Rightarrow>
               collect_dirty h obj ps
                 (properties @ [''`'' @ p @ ''`''], vals @ [w], qs @ [''?''],
                  propertyPairs @ [''`'' @ p @ ''` = ?''])))"

text \<open>
  \<^verbatim>\<open>save(obj, tx, callback)\<close>. The result is the exception thrown, or the new state with
  the statement handed to \<^verbatim>\<open>tx.executeSql\<close> together with \<^verbatim>\<open>callback\<close>; \<open>None\<close> means
  that no statement was issued and \<^verbatim>\<open>callback\<close> was called at once. An object that is
  no instance has no \<^verbatim>\<open>_dirtyProperties\<close>, so the loop over it is empty.
\<close>

definition save :: "state \<Rightarrow> addr \<Rightarrow> error + (state \<times> statement option)" where
  "save st a =
     (case store st a of
        None \<Rightarrow> Inr (st, None)
      | Some obj \<Rightarrow>
          (case collect_dirty (store st) obj (dirtyProperties obj) ([], [], [], []) of
             Inl e \<Rightarrow> Inl e
           | Inr (properties, vals, qs, propertyPairs) \<Rightarrow>
               if length properties = 0 then Inr (st, None)
               else if truthy (o_new obj)
               then Inr (st\<lparr>store := (store st)(a \<mapsto> obj\<lparr>o_new := JBool False, dirtyProperties := []\<rparr>)\<rparr>,
                         Some (Statement
                                 (''INSERT INTO `'' @ ToString (o_type obj) @ ''` (''
                                    @ join '', '' (properties @ [''id'']) @ '') VALUES (''
                                    @ join '', '' (qs @ [''?'']) @ '')'')
                                 (Some (vals @ [o_id obj]))))
               else Inr (st\<lparr>store := (store st)(a \<mapsto> obj\<lparr>dirtyProperties := []\<rparr>)\<rparr>,
                         Some (Statement
                                 (''UPDATE `'' @ ToString (o_type obj) @ ''` SET ''
                                    @ join '','' propertyPairs @ '' WHERE id = '' @ [CHR 0x27]
                                    @ ToString (o_id obj) @ [CHR 0x27])
                                 (Some vals)))))"

text \<open>
  What the store driver and the callbacks are seen to do. The driver is external: a call
  of \<^verbatim>\<open>transaction\<close> starts a new transaction and runs its function, and a statement
  handed to \<^verbatim>\<open>executeSql\<close> completes with success, at which point its callback runs.
\<close>

type_synonym tx = nat

datatype event =
    Begin tx
  | Execute tx statement
  | Success tx statement
  | Callback "tx option"

text \<open>
  \<^verbatim>\<open>persistOneEntity\<close> of \<^verbatim>\<open>flush\<close>. The array \<^verbatim>\<open>objArray\<close> is kept with its last element
  first, so that \<^verbatim>\<open>pop\<close> takes the head. \<open>callback\<close> tells whether a function was
  passed. The result is the state, the events in order, and the exception that ended
  the run, if any. On an empty array \<^verbatim>\<open>pop\<close> yields \<^verbatim>\<open>undefined\<close>, whose \<^verbatim>\<open>_type\<close> is read
  by \<^verbatim>\<open>save\<close>.
\<close>

fun persistOneEntity ::
  "state \<Rightarrow> tx \<Rightarrow> bool \<Rightarrow> addr list \<Rightarrow> state \<times> event list \<times> error option" where
  "persistOneEntity st tx callback [] = (st, [], Some TypeError)"
| "persistOneEntity st tx callback (obj # objArray) =
     (case save st obj of
        Inl e \<Rightarrow> (st, [], Some e)
      | Inr (st', issued) \<Rightarrow>
          (let evs = (case issued of None \<Rightarrow> [] | Some s \<Rightarrow> [Execute tx s, Success tx s])
           in if length objArray > 0
              then (case persistOneEntity st' tx callback objArray of
                      (st'', evs', r) \<Rightarrow> (st'', evs @ evs', r))
              else if callback then (st', evs @ [Callback None], None)
              else (st', evs, None)))"

definition flush :: "state \<Rightarrow> tx \<Rightarrow> bool \<Rightarrow> state \<times> event list \<times> error option" where
  "flush st tx callback =
     (let objArray = map snd (trackedObjects st)
      in if length objArray > 0 then persistOneEntity st tx callback (rev objArray)
         else if callback then (st, [Callback None], None)
         else (st, [], Some TypeError))"


section \<open>Schema synchronizer\<close>

definition rowDef_of :: "meta \<Rightarrow> string" where
  "rowDef_of m =
     (let rowDef = concat (map (\<lambda>(prop, ty). prop @ '' '' @ ty @ '', '') (m_fields m))
                 @ concat (map (\<lambda>(rel, target). rel @ '' VARCHAR(255), '') (m_hasOne m))
      in take (length rowDef - 2) rowDef)"

definition create_table :: "meta \<Rightarrow> statement" where
  "create_table m =
     Statement (''CREATE TABLE IF NOT EXISTS `'' @ m_name m
                  @ ''` ( id VARCHAR(32) PRIMARY KEY, '' @ rowDef_of m @ '')'') None"

text \<open>\<^verbatim>\<open>createOneEntityTable\<close> of \<^verbatim>\<open>schemaSync\<close>, with \<^verbatim>\<open>entityArray\<close> kept last element
  first. On an empty array \<^verbatim>\<open>pop\<close> yields \<^verbatim>\<open>undefined\<close>, whose \<^verbatim>\<open>fields\<close> is read.\<close>

fun createOneEntityTable ::
  "state \<Rightarrow> bool \<Rightarrow> meta list \<Rightarrow> state \<times> event list \<times> error option" where
  "createOneEntityTable st callback [] = (st, [], Some TypeError)"
| "createOneEntityTable st callback (m # entityArray) =
     (let tx = conn_txs st;
          st' = st\<lparr>conn_txs := Suc tx\<rparr>;
          evs = [Begin tx, Execute tx (create_table m), Success tx (create_table m)]
      in if length entityArray > 0
         then (case createOneEntityTable st' callback entityArray of
                 (st'', evs', r) \<Rightarrow> (st'', evs @ evs', r))
         else if callback then (st', evs @ [Callback (Some tx)], None)
         else (st', evs, None))"

definition schemaSync :: "state \<Rightarrow> bool \<Rightarrow> state \<times> event list \<times> error option" where
  "schemaSync st callback = createOneEntityTable st callback (rev (map snd (entityMeta st)))"


section \<open>Notions used in the statements\<close>

text \<open>The value \<^verbatim>\<open>save\<close> binds for a dirty name: the property read through its accessor,
  then converted as \<^verbatim>\<open>save\<close> converts it.\<close>

definition stored_value :: "heap \<Rightarrow> entity_instance \<Rightarrow> string \<Rightarrow> error + jsval" where
  "stored_value h obj p =
     (case get_prop obj p of Inl e \<Rightarrow> Inl e | Inr v \<Rightarrow> entityValToDbVal h v None)"

text \<open>The transactions started in a run, in order.\<close>

fun transactions_begun :: "event list \<Rightarrow> tx list" where
  "transactions_begun [] = []"
| "transactions_begun (Begin t # evs) = t # transactions_begun evs"
| "transactions_begun (e # evs) = transactions_begun evs"

text \<open>The statements handed to the driver in a run, in order.\<close>

fun executed :: "event list \<Rightarrow> statement list" where
  "executed [] = []"
| "executed (Execute t s # evs) = s # executed evs"
| "executed (e # evs) = executed evs"


section \<open>Example sessions\<close>

text \<open>\<^verbatim>\<open>Person = persistence.define("Person", {name: "TEXT", age: "INT"})\<close>.\<close>

definition person_session :: state where
  "person_session =
     persistence_define init_state ''Person'' [(''name'', ''TEXT''), (''age'', ''INT'')]"

text \<open>\<^verbatim>\<open>p = new Person({name: "Alice", age: 30}); persistence.add(p)\<close>, where the
  identifier drawn for \<^verbatim>\<open>p\<close> is \<^verbatim>\<open>u1\<close>; \<^verbatim>\<open>p\<close> is at address 0.\<close>

definition alice_session :: state where
  "alice_session =
     (case entity person_session ''Person'' ''u1'' [(''name'', JStr ''Alice''), (''age'', JNum 30)] of
        Inr (st, p) \<Rightarrow> add st p
      | Inl e \<Rightarrow> person_session)"

text \<open>Two rows of the table \<^verbatim>\<open>Person\<close> with the same id.\<close>

definition row_alice :: "(string \<times> jsval) list" where
  "row_alice = [(''id'', JStr ''a1''), (''name'', JStr ''Alice'')]"

definition row_bob :: "(string \<times> jsval) list" where
  "row_bob = [(''id'', JStr ''a1''), (''name'', JStr ''Bob'')]"

definition first_materialization :: "state \<times> (error + addr)" where
  "first_materialization = rowToEntity person_session ''Person'' row_alice [] ''u1''"

definition second_materialization :: "state \<times> (error + addr)" where
  "second_materialization =
     rowToEntity (fst first_materialization) ''Person'' row_bob [] ''u2''"

text \<open>\<^verbatim>\<open>Task = persistence.define("Task", {done: "BOOL"}); t = new Task({done: true})\<close>,
  with \<^verbatim>\<open>t\<close> at address 0.\<close>

definition task_session :: state where
  "task_session =
     (let st = persistence_define init_state ''Task'' [(''done'', ''BOOL'')]
      in case entity st ''Task'' ''u1'' [(''done'', JBool True)] of
           Inr (st', t) \<Rightarrow> st'
         | Inl e \<Rightarrow> st)"

text \<open>\<^verbatim>\<open>Person\<close> and \<^verbatim>\<open>Pet\<close> with \<^verbatim>\<open>Person.hasMany("pets", Pet, "owner")\<close>.\<close>

definition pets_session :: state where
  "pets_session =
     fst (hasMany_decl
            (persistence_define (persistence_define init_state ''Person'' [(''name'', ''TEXT'')])
               ''Pet'' [(''name'', ''TEXT'')])
            ''Person'' ''pets'' ''Pet'' ''owner'')"

text \<open>\<^verbatim>\<open>ann = new Person({name: "Ann"}); rex = new Pet({owner: ann})\<close>, with \<^verbatim>\<open>ann\<close> at
  address 0 and \<^verbatim>\<open>rex\<close> at address 1.\<close>

definition owned_pet_session :: state where
  "owned_pet_session =
     (case entity pets_session ''Person'' ''u1'' [(''name'', JStr ''Ann'')] of
        Inr (st, ann) \<Rightarrow>
          (case entity st ''Pet'' ''u2'' [(''owner'', JRef ann)] of
             Inr (st', rex) \<Rightarrow> st'
           | Inl e \<Rightarrow> st)
      | Inl e \<Rightarrow> pets_session)"

text \<open>\<^verbatim>\<open>q = new Pet({owner: "abc"}); persistence.add(q)\<close>: a relation given as a bare id;
  \<^verbatim>\<open>q\<close> is at address 0.\<close>

definition stray_pet_session :: state where
  "stray_pet_session =
     (case entity pets_session ''Pet'' ''u1'' [(''owner'', JStr ''abc'')] of
        Inr (st, q) \<Rightarrow> add st q
      | Inl e \<Rightarrow> pets_session)"

text \<open>\<^verbatim>\<open>new Pet({name: null, owner: "abc"})\<close>, at address 0.\<close>

definition nameless_pet_session :: state where
  "nameless_pet_session =
     (case entity pets_session ''Pet'' ''u1'' [(''name'', Null), (''owner'', JStr ''abc'')] of
        Inr (st, q) \<Rightarrow> st
      | Inl e \<Rightarrow> pets_session)"

text \<open>Two rows of the table \<^verbatim>\<open>Person\<close> whose id is the one of the tracked \<^verbatim>\<open>p\<close>.\<close>

definition row_u1_alice :: "(string \<times> jsval) list" where
  "row_u1_alice = [(''id'', JStr ''u1''), (''name'', JStr ''Alice'')]"

definition row_u1_bob :: "(string \<times> jsval) list" where
  "row_u1_bob = [(''id'', JStr ''u1''), (''name'', JStr ''Bob'')]"

text \<open>The objects of the example sessions, written out.\<close>

definition alice :: entity_instance where
  "alice =
     \<lparr>o_id = JStr ''u1'', o_new = JBool True, o_type = JStr ''Person'',
      dirtyProperties = [''name'', ''age''],
      data = [''name'' \<mapsto> JStr ''Alice'', ''age'' \<mapsto> JNum 30],
      data_obj = Map.empty, field_acc = [''name'', ''age''], hasOne_acc = [],
      other = Map.empty\<rparr>"

definition true_task :: entity_instance where
  "true_task =
     \<lparr>o_id = JStr ''u1'', o_new = JBool True, o_type = JStr ''Task'',
      dirtyProperties = [''done''], data = [''done'' \<mapsto> JBool True],
      data_obj = Map.empty, field_acc = [''done''], hasOne_acc = [],
      other = Map.empty\<rparr>"

definition rex :: entity_instance where
  "rex =
     \<lparr>o_id = JStr ''u2'', o_new = JBool True, o_type = JStr ''Pet'',
      dirtyProperties = [''owner''], data = [''owner'' \<mapsto> JStr ''u1''],
      data_obj = [''owner'' \<mapsto> 0], field_acc = [''name''], hasOne_acc = [''owner''],
      other = Map.empty\<rparr>"


definition nameless_pet :: entity_instance where
  "nameless_pet =
     \<lparr>o_id = JStr ''u1'', o_new = JBool True, o_type = JStr ''Pet'',
      dirtyProperties = [''name'', ''owner''],
      data = [''name'' \<mapsto> Null, ''owner'' \<mapsto> JStr ''abc''],
      data_obj = Map.empty, field_acc = [''name''], hasOne_acc = [''owner''],
      other = Map.empty\<rparr>"


section \<open>Evaluation of the example sessions\<close>

lemmas session_defs =
  person_session_def alice_session_def task_session_def pets_session_def
  owned_pet_session_def stray_pet_session_def nameless_pet_session_def
  persistence_define_def getEntity_def init_state_def hasMany_decl_def
  entity_def closure_meta_def entity_body_def alloc_def add_def

lemmas accessor_defs =
  set_prop_def get_prop_def field_setter_def field_getter_def
  hasOne_setter_def hasOne_getter_def add_key_def

lemma alice_stored: "store alice_session 0 = Some alice"
  by (simp add: session_defs accessor_defs alice_def)

lemma alice_tracked: "trackedObjects alice_session = [(''u1'', 0)]"
  by (simp add: session_defs accessor_defs)


lemma nameless_pet_stored: "store nameless_pet_session 0 = Some nameless_pet"
  by (simp add: session_defs accessor_defs nameless_pet_def)

lemma pets_session_registry:
  "map snd (entityMeta pets_session) =
     [\<lparr>m_name = ''Person'', m_fields = [(''name'', ''TEXT'')],
        m_hasMany = [(''pets'', ''Pet'')], m_hasOne = []\<rparr>,
      \<lparr>m_name = ''Pet'', m_fields = [(''name'', ''TEXT'')], m_hasMany = [],
        m_hasOne = [(''owner'', ''Person'')]\<rparr>]"
  by (simp add: session_defs)


section \<open>Properties of the value conversion\<close>

lemma member_id_primitive:
  "v \<noteq> Undefined \<Longrightarrow> v \<noteq> Null \<Longrightarrow> (\<forall>a. v \<noteq> JRef a) \<Longrightarrow> member_id h v = Inr Undefined"
  by (cases v) simp_all

lemma entityValToDbVal_undefined: "entityValToDbVal h Undefined type = Inr Null"
  by (simp add: entityValToDbVal_def)

lemma entityValToDbVal_instance:
  "h a = Some obj \<Longrightarrow> truthy (o_id obj) \<Longrightarrow> entityValToDbVal h (JRef a) type = Inr (o_id obj)"
  by (simp add: entityValToDbVal_def)

lemma entityValToDbVal_primitive:
  "v \<noteq> Undefined \<Longrightarrow> v \<noteq> Null \<Longrightarrow> (\<forall>a. v \<noteq> JRef a) \<Longrightarrow>
   entityValToDbVal h v type =
     (if type = Some ''BOOL'' then Inr (JNum (if truthy v then 1 else 0)) else Inr v)"
  by (simp add: entityValToDbVal_def member_id_primitive)

text \<open>
  Claim C6, on the input \<^verbatim>\<open>null\<close>. The conversion to storage tests its argument
  against \<^verbatim>\<open>undefined\<close> only and then reads the member \<^verbatim>\<open>_id\<close> of it, so for every
  storage-type tag the value \<^verbatim>\<open>null\<close> raises a TypeError instead of being mapped to the
  storage null.
\<close>

theorem entityValToDbVal_null_fails:
  "entityValToDbVal h Null type = Inl TypeError"
  by (simp add: entityValToDbVal_def)

text \<open>
  Claim C8. Over the BOOL domain the two conversions are inverse to each other: for
  every stored \<open>v\<close> in \<open>{0, 1}\<close>, reading \<open>v\<close> and storing the result gives \<open>v\<close> back,
  which is also what storing \<open>v\<close> itself gives; and for every boolean \<open>b\<close>, storing \<open>b\<close>
  gives 1 or 0, and reading that gives \<open>b\<close> back.
\<close>

theorem bool_conversion_roundtrip:
  assumes "v \<in> {JNum 0, JNum 1}"
  shows "entityValToDbVal h (dbValToEntityVal v (Some ''BOOL'')) (Some ''BOOL'')
           = entityValToDbVal h v (Some ''BOOL'')
       \<and> entityValToDbVal h (dbValToEntityVal v (Some ''BOOL'')) (Some ''BOOL'') = Inr v
       \<and> dbValToEntityVal v (Some ''BOOL'') \<in> {JBool False, JBool True}
       \<and> (\<exists>w \<in> {JNum 0, JNum 1}.
             entityValToDbVal h (JBool b) (Some ''BOOL'') = Inr w
           \<and> dbValToEntityVal w (Some ''BOOL'') = JBool b)"
  using assms by (auto simp: entityValToDbVal_def dbValToEntityVal_def)

text \<open>The round trip at the stored value 1, on an empty heap.\<close>

theorem bool_conversion_roundtrip_witness:
  "JNum 1 \<in> {JNum 0, JNum 1}
   \<and> entityValToDbVal Map.empty (dbValToEntityVal (JNum 1) (Some ''BOOL'')) (Some ''BOOL'')
       = Inr (JNum 1)
   \<and> dbValToEntityVal (JNum 1) (Some ''BOOL'') = JBool True"
  using bool_conversion_roundtrip [of "JNum 1" Map.empty True]
  by (simp add: dbValToEntityVal_def entityValToDbVal_def)


section \<open>Properties of the relation accessors\<close>

lemma unresolved_getter:
  "ref \<in> set (hasOne_acc obj) \<Longrightarrow> data_obj obj ref = None \<Longrightarrow>
   get_prop obj ref = Inl (NotFetched ref (case data obj ref of Some v \<Rightarrow> v | None \<Rightarrow> Undefined))"
  by (simp add: get_prop_def hasOne_getter_def)

text \<open>
  Claim C3, on a relation whose target was assigned. In the session where \<^verbatim>\<open>rex.owner\<close>
  was set to the instance \<^verbatim>\<open>ann\<close> (address 0), the write \<^verbatim>\<open>rex.owner = null\<close> sets the
  stored foreign key to \<^verbatim>\<open>null\<close> and keeps the relation dirty, but leaves the cached
  target in place: the next read of \<^verbatim>\<open>rex.owner\<close> still returns \<^verbatim>\<open>ann\<close>.
\<close>

theorem hasOne_null_keeps_cached_target:
  "store owned_pet_session 1 = Some rex
   \<and> read_prop owned_pet_session 1 ''owner'' = Inr (JRef 0)
   \<and> store (write_prop owned_pet_session 1 ''owner'' Null) 1
       = Some (rex\<lparr>data := [''owner'' \<mapsto> Null]\<rparr>)
   \<and> read_prop (write_prop owned_pet_session 1 ''owner'' Null) 1 ''owner'' = Inr (JRef 0)"
  by (simp add: session_defs accessor_defs read_prop_def write_prop_def rex_def)


section \<open>Properties of the identity cache\<close>

lemma rowToEntity_never_tracks:
  "trackedObjects (fst (rowToEntity st entityName row prefix uuid)) = trackedObjects st"
  by (simp add: rowToEntity_def getEntity_def alloc_def Let_def split: option.splits)

lemma set_prop_keeps_id: "p \<noteq> ''_id'' \<Longrightarrow> o_id (set_prop h that p val) = o_id that"
  by (simp add: set_prop_def hasOne_setter_def field_setter_def Let_def
        split: jsval.splits sum.splits)

lemma fill_from_row_keeps_id:
  "prefix @ ''_id'' \<notin> fst ` set row \<Longrightarrow>
   o_id (fill_from_row h rowMeta prefix obj row) = o_id obj"
proof (induction row arbitrary: obj)
  case Nil
  then show ?case by simp
next
  case (Cons c row)
  obtain p v where c: "c = (p, v)" by (cases c) auto
  from Cons.prems have rest: "prefix @ ''_id'' \<notin> fst ` set row" and p: "p \<noteq> prefix @ ''_id''"
    by (auto simp: c)
  have "take (length prefix) p = prefix \<Longrightarrow> drop (length prefix) p \<noteq> ''_id''"
    using p append_take_drop_id [of "length prefix" p] by metis
  then show ?case
    by (simp add: c Cons.IH [OF rest] set_prop_keeps_id Let_def)
qed

lemma add_keeps_tracked:
  "map_of (trackedObjects st) k = Some obj \<Longrightarrow> map_of (trackedObjects (add st b)) k = Some obj"
  by (simp add: add_def Let_def map_add_Some_iff)

lemma add_tracks_untracked:
  "store st obj = Some that \<Longrightarrow> map_of (trackedObjects st) (ToString (o_id that)) = None \<Longrightarrow>
   map_of (trackedObjects (add st obj)) (ToString (o_id that)) = Some obj"
  by (simp add: add_def Let_def map_add_def)

lemma rowToEntity_then_add:
  assumes "rowToEntity st entityName row prefix uuid = (st1, Inr obj)"
      and "prefix @ ''_id'' \<notin> fst ` set row"
  shows "map_of (trackedObjects (add st1 obj)) (ToString (row_get row (prefix @ ''id''))) = Some obj"
proof (cases "map_of (trackedObjects st) (ToString (row_get row (prefix @ ''id'')))")
  case (Some cached)
  with assms(1) have "st1 = st" "obj = cached" by (simp_all add: rowToEntity_def)
  with Some show ?thesis by (simp add: add_keeps_tracked)
next
  case None
  from assms(1) None obtain rowMeta where
    m: "closure_meta (getEntity st entityName) entityName = Some rowMeta"
    by (auto simp: rowToEntity_def Let_def split: option.splits)
  define that where "that =
    fill_from_row (store (getEntity st entityName)) rowMeta prefix
      ((entity_body (store (getEntity st entityName)) entityName rowMeta uuid [])
         \<lparr>o_id := row_get row (prefix @ ''id''), o_new := JBool False\<rparr>) row"
  from assms(1) None m have r: "(st1, obj) = alloc (getEntity st entityName) that"
    by (simp add: rowToEntity_def Let_def that_def split: prod.splits)
  have i: "o_id that = row_get row (prefix @ ''id'')"
    by (simp add: that_def fill_from_row_keeps_id [OF assms(2)])
  have s: "store st1 obj = Some that"
    using r by (simp add: alloc_def)
  have t: "trackedObjects st1 = trackedObjects st"
    using r by (simp add: alloc_def getEntity_def)
  from add_tracks_untracked [OF s] None show ?thesis
    by (simp add: i t)
qed

text \<open>
  Claim C1, as amended. For every entity name and every pair of rows carrying the same
  id, whose string form is not the name of a member of \<^verbatim>\<open>Object.prototype\<close>: if an
  instance is tracked under that id, then both materializations return that tracked
  instance and leave the state as it was, so the column values of both rows are
  discarded; if the materialization of the first row returns an object and the first
  row has no column \<^verbatim>\<open>prefix + "_id"\<close> (which would overwrite \<^verbatim>\<open>_id\<close>), then once the
  caller has tracked that object with \<^verbatim>\<open>add\<close>, the materialization of the second row
  returns that same object and changes nothing; and a materialization never changes
  what is tracked.
\<close>

theorem rowToEntity_tracked_identity:
  assumes "row_get row2 (prefix @ ''id'') = row_get row1 (prefix @ ''id'')"
      and "ToString (row_get row1 (prefix @ ''id'')) \<notin> set object_prototype_members"
  shows "(map_of (trackedObjects st) (ToString (row_get row1 (prefix @ ''id''))) = Some obj
            \<longrightarrow> rowToEntity st entityName row1 prefix uuid1 = (st, Inr obj)
              \<and> rowToEntity st entityName row2 prefix uuid2 = (st, Inr obj))
       \<and> (rowToEntity st entityName row1 prefix uuid1 = (st1, Inr obj)
            \<and> prefix @ ''_id'' \<notin> fst ` set row1
            \<longrightarrow> rowToEntity (add st1 obj) entityName row2 prefix uuid2 = (add st1 obj, Inr obj))
       \<and> trackedObjects (fst (rowToEntity st entityName row1 prefix uuid1)) = trackedObjects st"
proof (intro conjI impI)
  assume "map_of (trackedObjects st) (ToString (row_get row1 (prefix @ ''id''))) = Some obj"
  with assms(1) show "rowToEntity st entityName row1 prefix uuid1 = (st, Inr obj)"
    and "rowToEntity st entityName row2 prefix uuid2 = (st, Inr obj)"
    by (simp_all add: rowToEntity_def)
next
  assume h: "rowToEntity st entityName row1 prefix uuid1 = (st1, Inr obj)
             \<and> prefix @ ''_id'' \<notin> fst ` set row1"
  from rowToEntity_then_add [OF conjunct1 [OF h] conjunct2 [OF h]] assms(1)
  show "rowToEntity (add st1 obj) entityName row2 prefix uuid2 = (add st1 obj, Inr obj)"
    by (simp add: rowToEntity_def)
next
  show "trackedObjects (fst (rowToEntity st entityName row1 prefix uuid1)) = trackedObjects st"
    by (rule rowToEntity_never_tracks)
qed

text \<open>Two rows with the id of the tracked \<^verbatim>\<open>p\<close> both yield \<^verbatim>\<open>p\<close>; and when the result
  of materializing \<^verbatim>\<open>row_alice\<close> is tracked, \<^verbatim>\<open>row_bob\<close> yields it again.\<close>

theorem rowToEntity_tracked_identity_witness:
  "row_get row_u1_bob ([] @ ''id'') = row_get row_u1_alice ([] @ ''id'')
   \<and> ToString (row_get row_u1_alice ([] @ ''id'')) \<notin> set object_prototype_members
   \<and> map_of (trackedObjects alice_session) (ToString (row_get row_u1_alice ([] @ ''id''))) = Some 0
   \<and> rowToEntity alice_session ''Person'' row_u1_alice [] ''u2'' = (alice_session, Inr 0)
   \<and> rowToEntity alice_session ''Person'' row_u1_bob [] ''u3'' = (alice_session, Inr 0)
   \<and> row_get row_bob ([] @ ''id'') = row_get row_alice ([] @ ''id'')
   \<and> ToString (row_get row_alice ([] @ ''id'')) \<notin> set object_prototype_members
   \<and> rowToEntity person_session ''Person'' row_alice [] ''u1'' = (fst first_materialization, Inr 0)
   \<and> [] @ ''_id'' \<notin> fst ` set row_alice
   \<and> rowToEntity (add (fst first_materialization) 0) ''Person'' row_bob [] ''u2''
       = (add (fst first_materialization) 0, Inr 0)"
proof -
  have h1: "map_of (trackedObjects alice_session)
              (ToString (row_get row_u1_alice ([] @ ''id''))) = Some 0"
    by (simp add: alice_tracked row_get_def row_u1_alice_def)
  have h2: "row_get row_u1_bob ([] @ ''id'') = row_get row_u1_alice ([] @ ''id'')"
    by (simp add: row_get_def row_u1_alice_def row_u1_bob_def)
  have p2: "ToString (row_get row_u1_alice ([] @ ''id'')) \<notin> set object_prototype_members"
    by (simp add: row_get_def row_u1_alice_def object_prototype_members_def)
  have h3: "row_get row_bob ([] @ ''id'') = row_get row_alice ([] @ ''id'')"
    by (simp add: row_get_def row_alice_def row_bob_def)
  have p3: "ToString (row_get row_alice ([] @ ''id'')) \<notin> set object_prototype_members"
    by (simp add: row_get_def row_alice_def object_prototype_members_def)
  have h4: "rowToEntity person_session ''Person'' row_alice [] ''u1''
              = (fst first_materialization, Inr 0)
            \<and> [] @ ''_id'' \<notin> fst ` set row_alice"
    by (simp add: first_materialization_def row_alice_def rowToEntity_def row_get_def
          session_defs Let_def)
  from rowToEntity_tracked_identity
         [OF h2 p2, where st = alice_session and obj = 0 and entityName = "''Person''"
            and ?uuid1.0 = "''u2''" and ?uuid2.0 = "''u3''", THEN conjunct1, rule_format, OF h1]
       rowToEntity_tracked_identity
         [OF h3 p3, where st = person_session and obj = 0 and entityName = "''Person''"
            and ?uuid1.0 = "''u1''" and ?uuid2.0 = "''u2''" and ?st1.0 = "fst first_materialization",
          THEN conjunct2, THEN conjunct1, rule_format, OF h4]
       h1 h2 h3 h4 p2 p3
  show ?thesis by simp
qed

text \<open>
  Claim C1 as stated fails when nothing is tracked under the id: two rows with the id
  \<^verbatim>\<open>a1\<close> are materialized into two objects, at the addresses 0 and 1, and the second
  object carries the second row's name.
\<close>

theorem rowToEntity_untracked_counterexample:
  "row_get row_bob ''id'' = row_get row_alice ''id''
   \<and> snd first_materialization = Inr 0
   \<and> snd second_materialization = Inr 1
   \<and> read_prop (fst second_materialization) 0 ''_id'' = Inr (JStr ''a1'')
   \<and> read_prop (fst second_materialization) 1 ''_id'' = Inr (JStr ''a1'')
   \<and> read_prop (fst second_materialization) 0 ''name'' = Inr (JStr ''Alice'')
   \<and> read_prop (fst second_materialization) 1 ''name'' = Inr (JStr ''Bob'')"
  by (simp add: first_materialization_def second_materialization_def row_alice_def row_bob_def
        rowToEntity_def row_get_def session_defs accessor_defs dbValToEntityVal_def
        read_prop_def Let_def)

text \<open>
  Claim C4, on a session with a tracked, unsaved instance. After \<^verbatim>\<open>persistence.clean()\<close>
  the registry is as before, but so is the cache read by \<^verbatim>\<open>add\<close>, \<^verbatim>\<open>flush\<close> and
  \<^verbatim>\<open>rowToEntity\<close>: the instance is still tracked, a flush still issues its insert, and a
  row with its id still yields the cached instance.
\<close>

theorem clean_keeps_identity_cache:
  "trackedObjects alice_session = [(''u1'', 0)]
   \<and> trackedObjects (clean alice_session) = [(''u1'', 0)]
   \<and> entityMeta (clean alice_session) = entityMeta alice_session
   \<and> fst (snd (flush (clean alice_session) 7 True)) =
       [Execute 7 (Statement ''INSERT INTO `Person` (`name`, `age`, id) VALUES (?, ?, ?)''
                      (Some [JStr ''Alice'', JNum 30, JStr ''u1''])),
        Success 7 (Statement ''INSERT INTO `Person` (`name`, `age`, id) VALUES (?, ?, ?)''
                      (Some [JStr ''Alice'', JNum 30, JStr ''u1''])),
        Callback None]
   \<and> snd (rowToEntity (clean alice_session) ''Person'' row_u1_bob [] ''u2'') = Inr 0"
  by (simp add: clean_def alice_tracked alice_stored flush_def save_def rowToEntity_def
        row_get_def row_u1_bob_def)
     (simp add: alice_def get_prop_def field_getter_def entityValToDbVal_def)


section \<open>Properties of save\<close>


lemma collect_dirty_fails_at:
  "list_all2 (\<lambda>p w. stored_value h obj p = Inr w) pre ws \<Longrightarrow>
   stored_value h obj p = Inl e \<Longrightarrow>
   collect_dirty h obj (pre @ p # post) (properties, vals, qs, propertyPairs) = Inl e"
proof (induction pre ws arbitrary: properties vals qs propertyPairs rule: list_all2_induct)
  case Nil
  then show ?case by (auto simp: stored_value_def split: sum.splits)
next
  case (Cons q pre w ws)
  from Cons.hyps(1) obtain v where v: "get_prop obj q = Inr v" "entityValToDbVal h v None = Inr w"
    by (auto simp: stored_value_def split: sum.splits)
  show ?case
    using Cons.IH [OF Cons.prems] by (simp add: v)
qed

lemma collect_dirty_fails:
  "p \<in> set ps \<Longrightarrow> get_prop obj p = Inl e \<Longrightarrow> \<exists>e'. collect_dirty h obj ps acc = Inl e'"
proof (induction ps arbitrary: acc)
  case Nil
  then show ?case by simp
next
  case (Cons q ps)
  obtain a b c d where acc: "acc = (a, b, c, d)" by (cases acc) auto
  show ?case
  proof (cases "q = p")
    case True
    with Cons.prems show ?thesis by (simp add: acc)
  next
    case False
    with Cons.prems have "p \<in> set ps" by simp
    from Cons.IH [OF this Cons.prems(2)] show ?thesis
      by (auto simp: acc split: sum.splits)
  qed
qed

lemma save_fails_unresolved:
  assumes "store st a = Some obj" "ref \<in> set (dirtyProperties obj)"
    "ref \<in> set (hasOne_acc obj)" "data_obj obj ref = None"
  shows "\<exists>e. save st a = Inl e"
proof -
  from collect_dirty_fails [OF assms(2) unresolved_getter [OF assms(3,4)]]
  obtain e where "collect_dirty (store st) obj (dirtyProperties obj) ([], [], [], []) = Inl e"
    by blast
  then show ?thesis by (simp add: save_def assms(1))
qed

lemma save_store_other:
  "save st b = Inr (st', s) \<Longrightarrow> a \<noteq> b \<Longrightarrow> store st' a = store st a"
  by (auto simp: save_def split: option.splits sum.splits if_splits prod.splits)

lemma save_empty_dirty:
  "store st a = Some obj \<Longrightarrow> dirtyProperties obj = [] \<Longrightarrow> save st a = Inr (st, None)"
  by (simp add: save_def)

text \<open>
  Claim C2, on a dirty BOOL field. \<^verbatim>\<open>Task\<close> declares \<^verbatim>\<open>done\<close> with the tag \<^verbatim>\<open>BOOL\<close> and
  \<^verbatim>\<open>t.done\<close> is \<^verbatim>\<open>true\<close>. \<^verbatim>\<open>save\<close> calls the converter without the declared type, so the
  insert binds the boolean \<^verbatim>\<open>true\<close>, where the converter given the declared type yields 1.
\<close>

theorem save_ignores_declared_type:
  "store task_session 0 = Some true_task
   \<and> getMeta task_session ''Task'' =
       Some \<lparr>m_name = ''Task'', m_fields = [(''done'', ''BOOL'')], m_hasMany = [], m_hasOne = []\<rparr>
   \<and> map_sum id snd (save task_session 0) =
       Inr (Some (Statement ''INSERT INTO `Task` (`done`, id) VALUES (?, ?)''
                    (Some [JBool True, JStr ''u1''])))
   \<and> entityValToDbVal (store task_session) (JBool True) (Some ''BOOL'') = Inr (JNum 1)"
  by (simp add: session_defs accessor_defs save_def entityValToDbVal_def getMeta_def
        true_task_def Let_def)





section \<open>Properties of flush\<close>

lemma persistOneEntity_unresolved:
  assumes "ref \<in> set (dirtyProperties obj)" "ref \<in> set (hasOne_acc obj)" "data_obj obj ref = None"
  shows "store st a = Some obj \<Longrightarrow> a \<in> set objArray \<Longrightarrow>
         (\<exists>e. snd (snd (persistOneEntity st tx callback objArray)) = Some e)
       \<and> store (fst (persistOneEntity st tx callback objArray)) a = Some obj"
proof (induction objArray arbitrary: st)
  case Nil
  then show ?case by simp
next
  case (Cons b objArray)
  show ?case
  proof (cases "save st b")
    case (Inl e)
    then show ?thesis using Cons.prems by simp
  next
    case (Inr r)
    obtain st' s where r: "r = (st', s)" by (cases r) auto
    have ba: "b \<noteq> a"
      using save_fails_unresolved [OF Cons.prems(1) assms] Inr by auto
    then have in_rest: "a \<in> set objArray" using Cons.prems(2) by simp
    then have ne: "objArray \<noteq> []" by auto
    have "store st' a = Some obj"
      using save_store_other [of st b st' s a] Inr r ba Cons.prems(1) by simp
    from Cons.IH [OF this in_rest] show ?thesis
      using Inr r ne by (cases "persistOneEntity st' tx callback objArray") simp
  qed
qed

text \<open>An instance whose dirty set contains a relation with an accessor and no cached
  target is never saved: \<^verbatim>\<open>save\<close> throws, and a flush over a tracked set that contains
  the instance ends with an exception and leaves the instance as it was.\<close>

lemma flush_fails_unresolved:
  assumes "store st a = Some obj"
      and "ref \<in> set (dirtyProperties obj)"
      and "ref \<in> set (hasOne_acc obj)"
      and "data_obj obj ref = None"
      and "a \<in> snd ` set (trackedObjects st)"
  shows "(\<exists>e. snd (snd (flush st tx callback)) = Some e)
       \<and> store (fst (flush st tx callback)) a = Some obj"
proof -
  from assms(5) have m: "a \<in> set (rev (map snd (trackedObjects st)))" by simp
  then have ne: "trackedObjects st \<noteq> []" by auto
  from persistOneEntity_unresolved [OF assms(2-4) assms(1) m] ne
  show ?thesis by (simp add: flush_def)
qed

text \<open>What \<^verbatim>\<open>save\<close> throws for such an instance is the relation's not-fetched condition
  when the dirty names before the relation are read and converted without failure,
  and a not-fetched condition whenever no dirty property reads \<^verbatim>\<open>null\<close>.\<close>

lemma save_unresolved_not_fetched:
  assumes "store st a = Some obj"
      and "dirtyProperties obj = pre @ ref # post"
      and "list_all2 (\<lambda>p w. stored_value (store st) obj p = Inr w) pre ws"
      and "ref \<in> set (hasOne_acc obj)"
      and "data_obj obj ref = None"
  shows "save st a =
           Inl (NotFetched ref (case data obj ref of Some v \<Rightarrow> v | None \<Rightarrow> Undefined))"
proof -
  have "stored_value (store st) obj ref =
          Inl (NotFetched ref (case data obj ref of Some v \<Rightarrow> v | None \<Rightarrow> Undefined))"
    by (simp add: stored_value_def unresolved_getter [OF assms(4,5)])
  from collect_dirty_fails_at [OF assms(3) this]
  show ?thesis by (simp add: save_def assms(1,2))
qed

lemma get_prop_throws_not_fetched:
  "get_prop obj p = Inl e \<Longrightarrow> \<exists>r fk. e = NotFetched r fk"
  by (auto simp: get_prop_def hasOne_getter_def split: if_splits option.splits)

lemma entityValToDbVal_not_null:
  "v \<noteq> Null \<Longrightarrow> \<exists>w. entityValToDbVal h v type = Inr w"
  by (cases v) (auto simp: entityValToDbVal_def)

lemma collect_dirty_not_fetched:
  "ref \<in> set ps \<Longrightarrow> get_prop obj ref = Inl e \<Longrightarrow>
   \<forall>p \<in> set ps. get_prop obj p \<noteq> Inr Null \<Longrightarrow>
   \<exists>r fk. collect_dirty h obj ps acc = Inl (NotFetched r fk)"
proof (induction ps arbitrary: acc)
  case Nil
  then show ?case by simp
next
  case (Cons q ps)
  obtain a b c d where acc: "acc = (a, b, c, d)" by (cases acc) auto
  show ?case
  proof (cases "get_prop obj q")
    case (Inl e')
    with get_prop_throws_not_fetched [OF Inl] show ?thesis by (auto simp: acc)
  next
    case (Inr v)
    with Cons.prems(3) have "v \<noteq> Null" by auto
    from entityValToDbVal_not_null [OF this, of h None]
    obtain w where w: "entityValToDbVal h v None = Inr w" by blast
    from Inr Cons.prems(2) have "q \<noteq> ref" by auto
    with Cons.prems(1) have "ref \<in> set ps" by simp
    from Cons.IH [OF this Cons.prems(2)] Cons.prems(3) show ?thesis
      by (simp add: acc Inr w)
  qed
qed

lemma save_unresolved_but_for_null:
  assumes "store st a = Some obj"
      and "ref \<in> set (dirtyProperties obj)"
      and "ref \<in> set (hasOne_acc obj)"
      and "data_obj obj ref = None"
      and "\<forall>p \<in> set (dirtyProperties obj). get_prop obj p \<noteq> Inr Null"
  shows "\<exists>r fk. save st a = Inl (NotFetched r fk)"
proof -
  from collect_dirty_not_fetched [OF assms(2) unresolved_getter [OF assms(3,4)] assms(5)]
  obtain r fk where
    "collect_dirty (store st) obj (dirtyProperties obj) ([], [], [], []) = Inl (NotFetched r fk)"
    by blast
  then show ?thesis by (simp add: save_def assms(1))
qed

text \<open>
  Claim C9, on an instance with a null field before the relation. For
  \<^verbatim>\<open>new Pet({name: null, owner: "abc"})\<close> the relation \<^verbatim>\<open>owner\<close> holds a bare id and has
  no cached target, and its getter throws the not-fetched condition; but \<^verbatim>\<open>save\<close>
  reaches the dirty field \<^verbatim>\<open>name\<close> first and throws the TypeError of converting
  \<^verbatim>\<open>null\<close>, where the claim has it fail with the not-fetched condition.
\<close>

theorem save_null_masks_unresolved_relation:
  "store nameless_pet_session 0 = Some nameless_pet
   \<and> dirtyProperties nameless_pet = [''name'', ''owner'']
   \<and> hasOne_acc nameless_pet = [''owner'']
   \<and> data nameless_pet ''owner'' = Some (JStr ''abc'')
   \<and> data_obj nameless_pet ''owner'' = None
   \<and> get_prop nameless_pet ''name'' = Inr Null
   \<and> get_prop nameless_pet ''owner'' = Inl (NotFetched ''owner'' (JStr ''abc''))
   \<and> save nameless_pet_session 0 = Inl TypeError"
  by (simp add: nameless_pet_stored save_def)
     (simp add: nameless_pet_def get_prop_def field_getter_def hasOne_getter_def
        entityValToDbVal_def)

lemma persistOneEntity_without_callback:
  "objArray \<noteq> [] \<Longrightarrow>
   persistOneEntity st tx False objArray =
     (case persistOneEntity st tx True objArray of
        (st', evs, r) \<Rightarrow> (st', filter (\<lambda>e. e \<noteq> Callback None) evs, r))"
proof (induction objArray arbitrary: st)
  case Nil
  then show ?case by simp
next
  case (Cons obj objArray)
  show ?case
  proof (cases "save st obj")
    case (Inl e)
    then show ?thesis by simp
  next
    case (Inr r)
    obtain st' issued where r: "r = (st', issued)" by (cases r) auto
    show ?thesis
    proof (cases "objArray = []")
      case True
      then show ?thesis using Inr r by (simp split: option.splits)
    next
      case False
      from Cons.IH [OF False, of st'] show ?thesis
        using Inr r False by (simp split: option.splits prod.splits)
    qed
  qed
qed

text \<open>
  Claim C10. With an empty tracked set, \<^verbatim>\<open>flush\<close> calls its callback argument without a
  test: given a function it calls it and issues nothing, given none it throws. With a
  non-empty tracked set the call is guarded: \<^verbatim>\<open>flush\<close> without a callback does exactly
  what it does with one, the same statements and the same outcome, minus the call of
  the callback.
\<close>

theorem flush_callback_guard:
  "(trackedObjects st = [] \<longrightarrow>
      flush st tx False = (st, [], Some TypeError)
    \<and> flush st tx True = (st, [Callback None], None))
 \<and> (trackedObjects st \<noteq> [] \<longrightarrow>
      flush st tx False =
        (case flush st tx True of
           (st', evs, r) \<Rightarrow> (st', filter (\<lambda>e. e \<noteq> Callback None) evs, r)))"
  by (simp add: flush_def persistOneEntity_without_callback)

text \<open>A session that tracks nothing, and the session that tracks \<^verbatim>\<open>p\<close>.\<close>

theorem flush_callback_guard_witness:
  "trackedObjects person_session = []
   \<and> flush person_session 7 False = (person_session, [], Some TypeError)
   \<and> flush person_session 7 True = (person_session, [Callback None], None)
   \<and> trackedObjects alice_session \<noteq> []
   \<and> snd (flush alice_session 7 True) =
       ([Execute 7 (Statement ''INSERT INTO `Person` (`name`, `age`, id) VALUES (?, ?, ?)''
                      (Some [JStr ''Alice'', JNum 30, JStr ''u1''])),
         Success 7 (Statement ''INSERT INTO `Person` (`name`, `age`, id) VALUES (?, ?, ?)''
                      (Some [JStr ''Alice'', JNum 30, JStr ''u1''])),
         Callback None], None)
   \<and> snd (flush alice_session 7 False) =
       ([Execute 7 (Statement ''INSERT INTO `Person` (`name`, `age`, id) VALUES (?, ?, ?)''
                      (Some [JStr ''Alice'', JNum 30, JStr ''u1''])),
         Success 7 (Statement ''INSERT INTO `Person` (`name`, `age`, id) VALUES (?, ?, ?)''
                      (Some [JStr ''Alice'', JNum 30, JStr ''u1'']))], None)"
proof -
  have e: "trackedObjects person_session = []"
    by (simp add: session_defs)
  have n: "trackedObjects alice_session \<noteq> []"
    by (simp add: alice_tracked)
  have f: "snd (flush alice_session 7 True) =
       ([Execute 7 (Statement ''INSERT INTO `Person` (`name`, `age`, id) VALUES (?, ?, ?)''
                      (Some [JStr ''Alice'', JNum 30, JStr ''u1''])),
         Success 7 (Statement ''INSERT INTO `Person` (`name`, `age`, id) VALUES (?, ?, ?)''
                      (Some [JStr ''Alice'', JNum 30, JStr ''u1''])),
         Callback None], None)"
    by (simp add: alice_tracked alice_stored flush_def save_def)
       (simp add: alice_def get_prop_def field_getter_def entityValToDbVal_def)
  from flush_callback_guard [of person_session 7, THEN conjunct1, rule_format, OF e]
       flush_callback_guard [of alice_session 7, THEN conjunct2, rule_format, OF n] e n f
  show ?thesis by (auto split: prod.splits)
qed


section \<open>Properties of the schema synchronizer\<close>

lemma createOneEntityTable_rounds:
  "entityArray \<noteq> [] \<Longrightarrow>
   createOneEntityTable st callback entityArray =
     (st\<lparr>conn_txs := conn_txs st + length entityArray\<rparr>,
      concat (map (\<lambda>(t, m). [Begin t, Execute t (create_table m), Success t (create_table m)])
                (enumerate (conn_txs st) entityArray))
        @ (if callback then [Callback (Some (conn_txs st + length entityArray - 1))] else []),
      None)"
proof (induction entityArray arbitrary: st)
  case Nil
  then show ?case by simp
next
  case (Cons m entityArray)
  show ?case
  proof (cases "entityArray = []")
    case True
    then show ?thesis by (simp add: Let_def)
  next
    case False
    from Cons.IH [OF False, of "st\<lparr>conn_txs := Suc (conn_txs st)\<rparr>"] False
    show ?thesis by (simp add: Let_def)
  qed
qed

lemma schemaSync_empty_registry:
  "entityMeta st = [] \<Longrightarrow> schemaSync st callback = (st, [], Some TypeError)"
  by (simp add: schemaSync_def)

lemma executed_append: "executed (xs @ ys) = executed xs @ executed ys"
  by (induction xs rule: executed.induct) simp_all

lemma transactions_begun_append:
  "transactions_begun (xs @ ys) = transactions_begun xs @ transactions_begun ys"
  by (induction xs rule: transactions_begun.induct) simp_all

lemma executed_rounds:
  "executed (concat (map (\<lambda>(t, m). [Begin t, Execute t (create_table m), Success t (create_table m)])
                       (enumerate n ms))) = map create_table ms"
  by (induction ms arbitrary: n) simp_all

lemma transactions_begun_rounds:
  "transactions_begun
     (concat (map (\<lambda>(t, m). [Begin t, Execute t (create_table m), Success t (create_table m)])
                (enumerate n ms))) = [n ..< n + length ms]"
  by (induction ms arbitrary: n) (simp_all add: upt_rec)

text \<open>
  Claim C5, as amended. For every non-empty registry, \<^verbatim>\<open>schemaSync\<close> runs one round per
  entity, last registered first: it starts a transaction of its own for the entity,
  hands it the entity's create-table-if-not-exists statement, and goes on to the next
  entity only when that statement has completed. So there is exactly one statement
  per entity and one transaction per entity, the rounds do not overlap, and the
  callback, if given, is called once, after the last statement has completed, with
  the last transaction; the run ends without an exception.
\<close>

theorem schemaSync_rounds:
  assumes "entityMeta st \<noteq> []"
  shows "schemaSync st callback =
           (st\<lparr>conn_txs := conn_txs st + length (entityMeta st)\<rparr>,
            concat (map (\<lambda>(t, m). [Begin t, Execute t (create_table m), Success t (create_table m)])
                      (enumerate (conn_txs st) (rev (map snd (entityMeta st)))))
              @ (if callback then [Callback (Some (conn_txs st + length (entityMeta st) - 1))]
                 else []),
            None)
       \<and> executed (fst (snd (schemaSync st callback)))
           = map create_table (rev (map snd (entityMeta st)))
       \<and> transactions_begun (fst (snd (schemaSync st callback)))
           = [conn_txs st ..< conn_txs st + length (entityMeta st)]"
proof -
  have t: "schemaSync st callback =
           (st\<lparr>conn_txs := conn_txs st + length (entityMeta st)\<rparr>,
            concat (map (\<lambda>(t, m). [Begin t, Execute t (create_table m), Success t (create_table m)])
                      (enumerate (conn_txs st) (rev (map snd (entityMeta st)))))
              @ (if callback then [Callback (Some (conn_txs st + length (entityMeta st) - 1))]
                 else []),
            None)"
    using assms by (simp add: schemaSync_def createOneEntityTable_rounds)
  have e: "executed (fst (snd (schemaSync st callback)))
           = map create_table (rev (map snd (entityMeta st)))"
    by (simp add: t executed_append executed_rounds)
  have b: "transactions_begun (fst (snd (schemaSync st callback)))
           = [conn_txs st ..< conn_txs st + length (entityMeta st)]"
    using transactions_begun_rounds [of "conn_txs st" "rev (map snd (entityMeta st))"]
    by (simp add: t transactions_begun_append)
  from t e b show ?thesis by blast
qed

text \<open>The registry of \<^verbatim>\<open>Person\<close> and \<^verbatim>\<open>Pet\<close>: the table of \<^verbatim>\<open>Pet\<close> first, with the column
  \<^verbatim>\<open>owner\<close> of its relation, then the table of \<^verbatim>\<open>Person\<close>.\<close>

theorem schemaSync_rounds_witness:
  "entityMeta pets_session \<noteq> []
   \<and> executed (fst (snd (schemaSync pets_session True))) =
       [Statement ''CREATE TABLE IF NOT EXISTS `Pet` ( id VARCHAR(32) PRIMARY KEY, name TEXT, owner VARCHAR(255))'' None,
        Statement ''CREATE TABLE IF NOT EXISTS `Person` ( id VARCHAR(32) PRIMARY KEY, name TEXT)'' None]
   \<and> snd (snd (schemaSync pets_session True)) = None"
proof -
  have h: "entityMeta pets_session \<noteq> []"
    using pets_session_registry by auto
  from schemaSync_rounds [OF h, of True] h show ?thesis
    by (simp add: pets_session_registry create_table_def rowDef_of_def Let_def)
qed

text \<open>
  Claim C5 as stated fails on a registry of two entities: the two statements are not
  inside a single transaction, \<^verbatim>\<open>schemaSync\<close> starts the transactions 0 and 1 and hands
  one statement to each.
\<close>

theorem schemaSync_two_transactions_counterexample:
  "fst (snd (schemaSync pets_session True)) =
     [Begin 0,
      Execute 0 (Statement ''CREATE TABLE IF NOT EXISTS `Pet` ( id VARCHAR(32) PRIMARY KEY, name TEXT, owner VARCHAR(255))'' None),
      Success 0 (Statement ''CREATE TABLE IF NOT EXISTS `Pet` ( id VARCHAR(32) PRIMARY KEY, name TEXT, owner VARCHAR(255))'' None),
      Begin 1,
      Execute 1 (Statement ''CREATE TABLE IF NOT EXISTS `Person` ( id VARCHAR(32) PRIMARY KEY, name TEXT)'' None),
      Success 1 (Statement ''CREATE TABLE IF NOT EXISTS `Person` ( id VARCHAR(32) PRIMARY KEY, name TEXT)'' None),
      Callback (Some 1)]
   \<and> transactions_begun (fst (snd (schemaSync pets_session True))) = [0, 1]"
  by (simp add: schemaSync_def pets_session_registry create_table_def rowDef_of_def Let_def)
     (simp add: session_defs)

end
